theory Spec2Isabelle
  imports Main "HOL-Library.AList" "HOL-Library.Char_ord" "HOL-Library.List_Lexorder"
    "HOL-Library.Sublist"
begin

section \<open>Python built-ins used by the backend\<close>

text \<open>
  Strings are lists of characters; a Python \<open>bytes\<close> value is a list of characters too.
  Integers are unbounded (\<open>int\<close>).  The functions of this section are the string and list
  primitives the backend calls: \<open>str.lower\<close>, \<open>str.strip\<close>, \<open>str.split\<close>,
  \<open>str.startswith\<close>, \<open>str.join\<close>, the substring test \<open>in\<close>, slicing, and
  \<open>os.path.basename\<close> / \<open>os.path.splitext\<close>.
\<close>

type_synonym bytes = "char list"

text \<open>\<open>c.lower()\<close> on the code points below 256: the ASCII capitals and the Latin-1
  capitals (0xC0 to 0xDE without the multiplication sign 0xD7) move up by 32.\<close>

definition lower_char :: "char \<Rightarrow> char" where
  "lower_char c =
     (let n = (of_char c :: nat) in
      if (65 \<le> n \<and> n \<le> 90) \<or> (192 \<le> n \<and> n \<le> 222 \<and> n \<noteq> 215)
      then char_of (n + 32) else c)"

definition lower :: "string \<Rightarrow> string" where
  "lower s = map lower_char s"

text \<open>\<open>str.isspace\<close> on one character below 256: tab to carriage return, the four
  separators 0x1C to 0x1F, the blank, NEL (0x85) and the no-break space (0xA0).\<close>

definition is_space :: "char \<Rightarrow> bool" where
  "is_space c =
     (let n = (of_char c :: nat) in
      (9 \<le> n \<and> n \<le> 13) \<or> (28 \<le> n \<and> n \<le> 32) \<or> n = 133 \<or> n = 160)"

text \<open>\<open>s.strip()\<close> removes whitespace at both ends; \<open>s.strip(chars)\<close>,
  \<open>s.rstrip(chars)\<close> remove the given characters.\<close>

definition strip_by :: "(char \<Rightarrow> bool) \<Rightarrow> string \<Rightarrow> string" where
  "strip_by p s = rev (dropWhile p (rev (dropWhile p s)))"

definition strip :: "string \<Rightarrow> string" where
  "strip s = strip_by is_space s"

definition strip_chars :: "string \<Rightarrow> string \<Rightarrow> string" where
  "strip_chars chars s = strip_by (\<lambda>c. c \<in> set chars) s"

definition rstrip_chars :: "string \<Rightarrow> string \<Rightarrow> string" where
  "rstrip_chars chars s = rev (dropWhile (\<lambda>c. c \<in> set chars) (rev s))"

text \<open>\<open>s.split(sep)\<close> for a one-character separator: never empty, \<open>''''.split(",")\<close>
  is \<open>['''']\<close>, and adjacent separators give empty fields.\<close>

fun split :: "char \<Rightarrow> string \<Rightarrow> string list" where
  "split sep [] = [[]]"
| "split sep (c # cs) =
     (if c = sep then [] # split sep cs
      else (case split sep cs of
              [] \<Rightarrow> [[c]]
            | w # ws \<Rightarrow> (c # w) # ws))"

definition startswith :: "string \<Rightarrow> string \<Rightarrow> bool" where
  "startswith s pre = (take (length pre) s = pre)"

text \<open>\<open>sub in s\<close>: \<open>sub\<close> occurs in \<open>s\<close> as a contiguous substring.\<close>

fun contains :: "string \<Rightarrow> string \<Rightarrow> bool" where
  "contains [] sub = (sub = [])"
| "contains (c # cs) sub = (startswith (c # cs) sub \<or> contains cs sub)"

text \<open>\<open>sep.join(xs)\<close>.\<close>

fun join :: "string \<Rightarrow> string list \<Rightarrow> string" where
  "join sep [] = []"
| "join sep [x] = x"
| "join sep (x # y # ys) = x @ sep @ join sep (y # ys)"

text \<open>\<open>xs[start:stop]\<close> with integer bounds: a negative bound counts from the end, and
  both are clamped to the list.\<close>

definition clamp_index :: "nat \<Rightarrow> int \<Rightarrow> nat" where
  "clamp_index n i = (if i < 0 then nat (max (i + int n) 0) else min (nat i) n)"

definition py_slice :: "'a list \<Rightarrow> int \<Rightarrow> int \<Rightarrow> 'a list" where
  "py_slice xs start stop =
     (let lo = clamp_index (length xs) start; hi = clamp_index (length xs) stop
      in take (hi - lo) (drop lo xs))"

text \<open>\<open>os.path.basename(p)\<close> (POSIX): what follows the last slash.\<close>

definition basename :: "string \<Rightarrow> string" where
  "basename p = rev (takeWhile (\<lambda>c. c \<noteq> CHR ''/'') (rev p))"

text \<open>\<open>os.path.splitext(p)[1]\<close> (POSIX): the extension starts at the last dot of the
  last component, leading dots of the component not counted.\<close>

definition splitext_ext :: "string \<Rightarrow> string" where
  "splitext_ext p =
     (let stem = dropWhile (\<lambda>c. c = CHR ''.'') (basename p)
      in if CHR ''.'' \<in> set stem
         then CHR ''.'' # rev (takeWhile (\<lambda>c. c \<noteq> CHR ''.'') (rev stem))
         else [])"

text \<open>\<open>a or b\<close> on an optional string and a string: \<open>None\<close> and the empty string
  are false.\<close>

fun or_else :: "string option \<Rightarrow> string \<Rightarrow> string" where
  "or_else None d = d"
| "or_else (Some s) d = (if s \<noteq> [] then s else d)"

section \<open>Data model (models.py)\<close>

type_synonym uuid = nat

datatype OCRStatus = PENDING | PROCESSING | COMPLETED | FAILED

record Tag =
  tag_id :: uuid
  name :: string
  color :: string

record Document =
  filename :: string
  mime_type :: string
  doc_size :: int
  folder_path :: string
  doc_id :: uuid
  file_path :: string
  thumbnail_path :: "string option"
  upload_date :: int
  ocr_status :: OCRStatus
  ocr_text :: "string option"
  ocr_engine :: "string option"
  ocr_engine_version :: "string option"
  tags :: "Tag list"
  metadata :: "(string \<times> string) list"

record SystemSettings =
  storage_type :: string
  max_file_size :: int
  max_zip_size :: int
  default_ocr_engine :: string

definition default_settings :: SystemSettings where
  "default_settings =
     \<lparr> storage_type = ''local'',
       max_file_size = 10 * 1024 * 1024,
       max_zip_size = 50 * 1024 * 1024,
       default_ocr_engine = ''tesseract'' \<rparr>"

section \<open>The world outside the source files\<close>

text \<open>
  The library calls whose code is not part of the repository are parameters of the model,
  collected in one record; no property of them is assumed.
  \<^item> \<open>guess_type name\<close> is \<open>mimetypes.guess_type(name)[0]\<close>.
  \<^item> \<open>uuid_str u\<close> is \<open>str(u)\<close> for a UUID.
  \<^item> \<open>utcnow u\<close> is the value of \<open>datetime.utcnow()\<close> read by the constructor of
    the document that receives the identifier \<open>u\<close>.
  \<^item> \<open>unzip content\<close> is the entry list of \<open>zipfile.ZipFile(content)\<close>, each entry
    with the bytes \<open>zip_file.open(entry).read()\<close> gives; \<open>None\<close> when the bytes are
    not an archive (the constructor raises).
  \<^item> \<open>make_thumbnail content\<close> is the Pillow part of \<open>create_thumbnail\<close> (open,
    thumbnail, save); \<open>None\<close> when one of the three raises.
  \<^item> \<open>tesseract_version\<close> is the version string \<open>TesseractOCR.__init__\<close> ends with
    (\<open>unknown\<close> when the query raises).
  \<^item> \<open>EASYOCR_AVAILABLE\<close>, \<open>PADDLEOCR_AVAILABLE\<close>, \<open>PDF2IMAGE_AVAILABLE\<close>: whether
    the optional imports succeed.  The constructor of an installed engine returns (an
    exception there would be one that no handler catches).
  \<^item> \<open>recognize engine image\<close> is the outcome of the \<open>try\<close> body of the engine's
    \<open>process_image\<close>: the text, or \<open>Inl\<close> the message of the exception raised.
  \<^item> \<open>convert_from_bytes pdf\<close> is the page images of a PDF, each saved as PNG bytes, or
    \<open>Inl\<close> the message of the exception raised.
\<close>

record zip_entry =
  zfilename :: string
  is_dir :: bool
  file_size :: int
  zdata :: bytes

record env =
  guess_type :: "string \<Rightarrow> string option"
  uuid_str :: "uuid \<Rightarrow> string"
  utcnow :: "uuid \<Rightarrow> int"
  unzip :: "bytes \<Rightarrow> zip_entry list option"
  make_thumbnail :: "bytes \<Rightarrow> bytes option"
  tesseract_version :: string
  EASYOCR_AVAILABLE :: bool
  PADDLEOCR_AVAILABLE :: bool
  PDF2IMAGE_AVAILABLE :: bool
  recognize :: "string \<Rightarrow> bytes \<Rightarrow> string + string"
  convert_from_bytes :: "bytes \<Rightarrow> string + bytes list"

section \<open>The process state\<close>

text \<open>
  \<open>documents\<close>, \<open>db_tags\<close> and \<open>settings\<close> are the three attributes of the global
  \<open>InMemoryDB\<close> object; the two dictionaries are association lists in insertion order, as
  a Python \<open>dict\<close> iterates.  \<open>files\<close> is the content of the local storage directory.
  \<open>next_uuid\<close> counts the calls of \<open>uuid.uuid4()\<close>: the identifier drawn by the
  \<open>n\<close>-th call is \<open>n\<close>, so that two calls never return the same identifier.

  A \<open>Document\<close> object is stored in \<open>db.documents\<close> under its own identifier and is
  mutated in place by \<open>update_document\<close>; a variable that holds the object is therefore
  read by looking the identifier of the object up in the state (\<open>deref\<close> below).
  The operations below never mutate a \<open>Tag\<close> object, so a tag in a document's list is
  the tag's value.
\<close>

record state =
  documents :: "(uuid \<times> Document) list"
  db_tags :: "(uuid \<times> Tag) list"
  settings :: SystemSettings
  files :: "string \<rightharpoonup> bytes"
  next_uuid :: nat

definition init_state :: state where
  "init_state =
     \<lparr> documents = [], db_tags = [], settings = default_settings,
       files = Map.empty, next_uuid = 0 \<rparr>"

section \<open>InMemoryDB (database.py)\<close>

definition get_document :: "state \<Rightarrow> uuid \<Rightarrow> Document option" where
  "get_document s document_id = map_of (documents s) document_id"

definition list_documents :: "state \<Rightarrow> int \<Rightarrow> int \<Rightarrow> string option \<Rightarrow> Document list" where
  "list_documents s skip limit fp =
     (let docs = map snd (documents s);
          docs = (case fp of
                    None \<Rightarrow> docs
                  | Some f \<Rightarrow> if f \<noteq> [] then filter (\<lambda>doc. folder_path doc = f) docs else docs)
      in py_slice docs skip (skip + limit))"

definition db_create_document :: "Document \<Rightarrow> state \<Rightarrow> state" where
  "db_create_document document s =
     s\<lparr>documents := AList.update (doc_id document) document (documents s)\<rparr>"

text \<open>The entries of the \<open>update_data\<close> dictionaries the callers pass, in order; each
  names a field of \<open>Document\<close>, so \<open>hasattr\<close> holds for it.  \<open>create_document\<close>,
  \<open>update_document\<close> and \<open>create_tag\<close> return the object they were given or have
  updated; the model returns the new state, and a caller reads the object from it.\<close>

datatype field_update =
    Set_ocr_status OCRStatus
  | Set_ocr_text string
  | Set_ocr_engine string
  | Set_ocr_engine_version string
  | Set_metadata "(string \<times> string) list"

fun setattr :: "field_update \<Rightarrow> Document \<Rightarrow> Document" where
  "setattr (Set_ocr_status v) doc = doc\<lparr>ocr_status := v\<rparr>"
| "setattr (Set_ocr_text v) doc = doc\<lparr>ocr_text := Some v\<rparr>"
| "setattr (Set_ocr_engine v) doc = doc\<lparr>ocr_engine := Some v\<rparr>"
| "setattr (Set_ocr_engine_version v) doc = doc\<lparr>ocr_engine_version := Some v\<rparr>"
| "setattr (Set_metadata v) doc = doc\<lparr>metadata := v\<rparr>"

definition update_document :: "uuid \<Rightarrow> field_update list \<Rightarrow> state \<Rightarrow> state" where
  "update_document document_id update_data s =
     (case map_of (documents s) document_id of
        None \<Rightarrow> s
      | Some doc \<Rightarrow>
          s\<lparr>documents := AList.update document_id (fold setattr update_data doc) (documents s)\<rparr>)"

definition get_tag_by_name :: "state \<Rightarrow> string \<Rightarrow> Tag option" where
  "get_tag_by_name s nm = find (\<lambda>tag. lower (name tag) = lower nm) (map snd (db_tags s))"

definition create_tag :: "Tag \<Rightarrow> state \<Rightarrow> state" where
  "create_tag tag s = s\<lparr>db_tags := AList.update (tag_id tag) tag (db_tags s)\<rparr>"

text \<open>The arguments of \<open>search_documents\<close>.\<close>

record search_args =
  q_text :: "string option"
  q_tags :: "string list"
  q_folder_path :: "string option"
  q_mime_types :: "string list"
  q_date_from :: "int option"
  q_date_to :: "int option"
  q_skip :: int
  q_limit :: int
  q_sort_by :: string
  q_sort_order :: string

definition default_search :: search_args where
  "default_search =
     \<lparr> q_text = None, q_tags = [], q_folder_path = None, q_mime_types = [],
       q_date_from = None, q_date_to = None, q_skip = 0, q_limit = 20,
       q_sort_by = ''upload_date'', q_sort_order = ''desc'' \<rparr>"

text \<open>\<open>results.sort(key=k, reverse=r)\<close>: stable, and with \<open>reverse\<close> still keeping
  the original order of elements with equal keys.\<close>

definition py_sort :: "('a \<Rightarrow> 'k::linorder) \<Rightarrow> bool \<Rightarrow> 'a list \<Rightarrow> 'a list" where
  "py_sort k reverse xs = (if reverse then rev (sort_key k (rev xs)) else sort_key k xs)"

definition filter_text :: "string option \<Rightarrow> Document list \<Rightarrow> Document list" where
  "filter_text t results =
     (case t of
        None \<Rightarrow> results
      | Some t0 \<Rightarrow>
          if t0 = [] then results
          else (let t1 = lower t0 in
                filter (\<lambda>doc.
                    (case ocr_text doc of
                       None \<Rightarrow> False
                     | Some ot \<Rightarrow> ot \<noteq> [] \<and> contains (lower ot) t1)
                    \<or> contains (lower (filename doc)) t1) results))"

definition filter_tags :: "string list \<Rightarrow> Document list \<Rightarrow> Document list" where
  "filter_tags ts results =
     (if ts = [] then results
      else filter (\<lambda>doc. list_ex (\<lambda>tag. name tag \<in> set ts) (tags doc)) results)"

definition filter_folder :: "string option \<Rightarrow> Document list \<Rightarrow> Document list" where
  "filter_folder fp results =
     (case fp of
        None \<Rightarrow> results
      | Some f \<Rightarrow> if f = [] then results else filter (\<lambda>doc. folder_path doc = f) results)"

definition filter_mime :: "string list \<Rightarrow> Document list \<Rightarrow> Document list" where
  "filter_mime ms results =
     (if ms = [] then results else filter (\<lambda>doc. mime_type doc \<in> set ms) results)"

definition filter_date_from :: "int option \<Rightarrow> Document list \<Rightarrow> Document list" where
  "filter_date_from d results =
     (case d of None \<Rightarrow> results | Some d0 \<Rightarrow> filter (\<lambda>doc. upload_date doc \<ge> d0) results)"

definition filter_date_to :: "int option \<Rightarrow> Document list \<Rightarrow> Document list" where
  "filter_date_to d results =
     (case d of None \<Rightarrow> results | Some d0 \<Rightarrow> filter (\<lambda>doc. upload_date doc \<le> d0) results)"

definition sort_results :: "string \<Rightarrow> string \<Rightarrow> Document list \<Rightarrow> Document list" where
  "sort_results sort_by sort_order results =
     (let reverse = (lower sort_order = ''desc'') in
      if sort_by = ''upload_date'' then py_sort upload_date reverse results
      else if sort_by = ''filename'' then py_sort filename reverse results
      else if sort_by = ''size'' then py_sort doc_size reverse results
      else results)"

definition search_documents :: "state \<Rightarrow> search_args \<Rightarrow> Document list" where
  "search_documents s q =
     (let results = map snd (documents s);
          results = filter_text (q_text q) results;
          results = filter_tags (q_tags q) results;
          results = filter_folder (q_folder_path q) results;
          results = filter_mime (q_mime_types q) results;
          results = filter_date_from (q_date_from q) results;
          results = filter_date_to (q_date_to q) results;
          results = sort_results (q_sort_by q) (q_sort_order q) results
      in py_slice results (q_skip q) (q_skip q + q_limit q))"

section \<open>Storage (storage.py)\<close>

text \<open>
  \<open>get_storage()\<close> returns an \<open>S3Storage\<close> when the storage type is \<open>s3\<close> and a
  \<open>LocalStorage\<close> otherwise; the methods below start with that choice.  A
  \<open>StorageError\<close> is \<open>Inl\<close> of its message.  \<open>S3Storage.save_file\<close> only makes up
  a key, and \<open>S3Storage.get_file\<close> always raises.  Neither \<open>save_file\<close> raises a
  \<open>StorageError\<close>, so the handlers' \<open>except StorageError\<close> around it has no branch here.
  Failures of the operating system (a disk that cannot be written, a file that cannot be
  opened) are outside the model.
\<close>

definition save_file :: "env \<Rightarrow> bytes \<Rightarrow> string \<Rightarrow> state \<Rightarrow> string \<times> state" where
  "save_file E file_content fname s =
     (let ext = splitext_ext fname;
          u = next_uuid s;
          unique_filename = uuid_str E u @ ext
      in if storage_type (settings s) = ''s3''
         then (''documents/'' @ unique_filename, s\<lparr>next_uuid := Suc u\<rparr>)
         else (let p = ''storage/documents/'' @ unique_filename
               in (p, s\<lparr>files := (files s)(p \<mapsto> file_content), next_uuid := Suc u\<rparr>)))"

definition get_file :: "env \<Rightarrow> state \<Rightarrow> string \<Rightarrow> string + (bytes \<times> string)" where
  "get_file E s path =
     (if storage_type (settings s) = ''s3''
      then Inl ''S3 storage is not fully implemented''
      else (case files s path of
              None \<Rightarrow> Inl (''File not found: '' @ path)
            | Some file_content \<Rightarrow>
                Inr (file_content, or_else (guess_type E path) ''application/octet-stream'')))"

text \<open>\<open>StorageBase.create_thumbnail\<close>: every exception inside ends in \<open>None\<close>.\<close>

definition create_thumbnail :: "env \<Rightarrow> string \<Rightarrow> state \<Rightarrow> string option \<times> state" where
  "create_thumbnail E path s =
     (case get_file E s path of
        Inl e \<Rightarrow> (None, s)
      | Inr (file_content, mt) \<Rightarrow>
          if \<not> startswith mt ''image/'' then (None, s)
          else (case make_thumbnail E file_content of
                  None \<Rightarrow> (None, s)
                | Some thumb_buffer \<Rightarrow>
                    (let (p, s') = save_file E thumb_buffer (''thumb_'' @ basename path) s
                     in (Some p, s'))))"

section \<open>OCR engines (ocr.py)\<close>

text \<open>An \<open>OCRError\<close> is \<open>Inl\<close> of its message.\<close>

datatype OCRProcessor = TesseractOCR string | EasyOCR | PaddleOCRProcessor

fun processor_name :: "OCRProcessor \<Rightarrow> string" where
  "processor_name (TesseractOCR v) = ''tesseract''"
| "processor_name EasyOCR = ''easyocr''"
| "processor_name PaddleOCRProcessor = ''paddleocr''"

fun processor_version :: "OCRProcessor \<Rightarrow> string" where
  "processor_version (TesseractOCR v) = v"
| "processor_version EasyOCR = ''unknown''"
| "processor_version PaddleOCRProcessor = ''unknown''"

fun error_prefix :: "OCRProcessor \<Rightarrow> string" where
  "error_prefix (TesseractOCR v) = ''Tesseract OCR error: ''"
| "error_prefix EasyOCR = ''EasyOCR error: ''"
| "error_prefix PaddleOCRProcessor = ''PaddleOCR error: ''"

definition process_image :: "env \<Rightarrow> OCRProcessor \<Rightarrow> bytes \<Rightarrow> string + string" where
  "process_image E p img =
     (case recognize E (processor_name p) img of
        Inl e \<Rightarrow> Inl (error_prefix p @ e)
      | Inr t \<Rightarrow> Inr t)"

fun process_pages :: "env \<Rightarrow> OCRProcessor \<Rightarrow> bytes list \<Rightarrow> string + string list" where
  "process_pages E p [] = Inr []"
| "process_pages E p (img # images) =
     (case process_image E p img of
        Inl e \<Rightarrow> Inl e
      | Inr t \<Rightarrow>
          (case process_pages E p images of
             Inl e \<Rightarrow> Inl e
           | Inr results \<Rightarrow> Inr (t # results)))"

definition process_pdf :: "env \<Rightarrow> OCRProcessor \<Rightarrow> bytes \<Rightarrow> string + string list" where
  "process_pdf E p pdf =
     (if \<not> PDF2IMAGE_AVAILABLE E then Inl ''pdf2image is required for PDF processing''
      else (case convert_from_bytes E pdf of
              Inl e \<Rightarrow> Inl (''PDF processing error: '' @ e)
            | Inr images \<Rightarrow> process_pages E p images))"

definition get_ocr_processor :: "env \<Rightarrow> string \<Rightarrow> string + OCRProcessor" where
  "get_ocr_processor E engine =
     (if engine = ''tesseract'' then Inr (TesseractOCR (tesseract_version E))
      else if engine = ''easyocr'' then
        (if \<not> EASYOCR_AVAILABLE E then Inl ''EasyOCR is not installed'' else Inr EasyOCR)
      else if engine = ''paddleocr'' then
        (if \<not> PADDLEOCR_AVAILABLE E then Inl ''PaddleOCR is not installed''
         else Inr PaddleOCRProcessor)
      else Inl (''Unknown OCR engine: '' @ engine))"

section \<open>The request handlers (api.py)\<close>

text \<open>
  Every \<open>raise HTTPException\<close> of the handlers modelled here is a constructor of
  \<open>error\<close>, with its status code and the value its detail message carries.  In the
  words of the specification, \<open>FileTooLarge\<close> is the error of that name, \<open>ZipTooLarge\<close>
  is \<open>ArchiveTooLarge\<close>, \<open>NoValidFiles\<close> is \<open>EmptyArchive\<close>, \<open>DocumentNotFound\<close> is
  \<open>NotFound\<close> and \<open>StorageFailure\<close> is the storage error on the synchronous path.
  \<open>BadZipFile\<close> is the uncaught exception of \<open>zipfile.ZipFile\<close>, which the framework
  answers with status 500.
\<close>

datatype error =
    FileTooLarge int
  | ZipTooLarge int
  | NoValidFiles
  | StorageFailure string
  | DocumentNotFound
  | BadZipFile

fun status_code :: "error \<Rightarrow> nat" where
  "status_code (FileTooLarge n) = 413"
| "status_code (ZipTooLarge n) = 413"
| "status_code NoValidFiles = 400"
| "status_code (StorageFailure e) = 500"
| "status_code DocumentNotFound = 404"
| "status_code BadZipFile = 500"

text \<open>The three outcomes \<open>process_document_ocr\<close> hands to \<open>update_document\<close>.\<close>

definition ocr_failed :: "string \<Rightarrow> field_update list" where
  "ocr_failed e = [Set_ocr_status FAILED, Set_metadata [(''error'', e)]]"

definition ocr_completed :: "string \<Rightarrow> OCRProcessor \<Rightarrow> field_update list" where
  "ocr_completed t processor =
     [Set_ocr_status COMPLETED, Set_ocr_text t,
      Set_ocr_engine (processor_name processor),
      Set_ocr_engine_version (processor_version processor)]"

text \<open>The \<open>try\<close> block of \<open>process_document_ocr\<close> up to the text: \<open>Inl\<close> is the
  message of the \<open>StorageError\<close> or \<open>OCRError\<close> caught.\<close>

definition run_ocr :: "env \<Rightarrow> state \<Rightarrow> string \<Rightarrow> string \<Rightarrow> string + (string \<times> OCRProcessor)" where
  "run_ocr E s path engine =
     (case get_file E s path of
        Inl e \<Rightarrow> Inl e
      | Inr (file_content, mt) \<Rightarrow>
          (case get_ocr_processor E engine of
             Inl e \<Rightarrow> Inl e
           | Inr processor \<Rightarrow>
               if mt = ''application/pdf''
               then (case process_pdf E processor file_content of
                       Inl e \<Rightarrow> Inl e
                     | Inr pages \<Rightarrow> Inr (join [CHR 0x0A, CHR 0x0A] pages, processor))
               else (case process_image E processor file_content of
                       Inl e \<Rightarrow> Inl e
                     | Inr t \<Rightarrow> Inr (t, processor))))"

definition process_document_ocr :: "env \<Rightarrow> uuid \<Rightarrow> string \<Rightarrow> state \<Rightarrow> state" where
  "process_document_ocr E document_id engine s =
     (case get_document s document_id of
        None \<Rightarrow> s
      | Some doc \<Rightarrow>
          (let s1 = update_document document_id [Set_ocr_status PROCESSING] s
           in case run_ocr E s1 (file_path doc) engine of
                Inr (t, processor) \<Rightarrow> update_document document_id (ocr_completed t processor) s1
              | Inl e \<Rightarrow> update_document document_id (ocr_failed e) s1))"

text \<open>The tag loop shared by both paths of \<open>create_document\<close>: \<open>doc_tags\<close> is
  \<open>doc.tags\<close>.\<close>

fun tags_loop :: "string list \<Rightarrow> Tag list \<Rightarrow> state \<Rightarrow> Tag list \<times> state" where
  "tags_loop [] doc_tags s = (doc_tags, s)"
| "tags_loop (tag_name # rest) doc_tags s =
     (if tag_name = [] then tags_loop rest doc_tags s
      else (case get_tag_by_name s tag_name of
              Some tag \<Rightarrow> tags_loop rest (doc_tags @ [tag]) s
            | None \<Rightarrow>
                (let tag = \<lparr> tag_id = next_uuid s, name = tag_name, color = ''#808080'' \<rparr>;
                     s' = create_tag tag (s\<lparr>next_uuid := Suc (next_uuid s)\<rparr>)
                 in tags_loop rest (doc_tags @ [tag]) s')))"

definition resolve_tags :: "string option \<Rightarrow> state \<Rightarrow> Tag list \<times> state" where
  "resolve_tags tgs s =
     (case tgs of
        None \<Rightarrow> ([], s)
      | Some t \<Rightarrow> if t = [] then ([], s) else tags_loop (map strip (split CHR '','' t)) [] s)"

text \<open>The constructor call \<open>Document(...)\<close> of the handlers: the identifier and the upload
  date come from the default factories, the other fields are the defaults.\<close>

definition new_document ::
  "env \<Rightarrow> string \<Rightarrow> string \<Rightarrow> string option \<Rightarrow> string \<Rightarrow> int \<Rightarrow> string \<Rightarrow> state \<Rightarrow> Document \<times> state" where
  "new_document E fname path thumb mt sz folder s =
     (\<lparr> filename = fname, mime_type = mt, doc_size = sz, folder_path = folder,
        doc_id = next_uuid s, file_path = path, thumbnail_path = thumb,
        upload_date = utcnow E (next_uuid s), ocr_status = PENDING,
        ocr_text = None, ocr_engine = None, ocr_engine_version = None,
        tags = [], metadata = [] \<rparr>,
      s\<lparr>next_uuid := Suc (next_uuid s)\<rparr>)"

text \<open>One upload: the bytes, the file name and the declared content type.\<close>

record upload =
  content :: bytes
  up_filename :: string
  content_type :: "string option"

text \<open>The body of the loop over the archive for an entry that is not skipped.\<close>

definition ingest_entry ::
  "env \<Rightarrow> string option \<Rightarrow> string \<Rightarrow> string \<Rightarrow> zip_entry \<Rightarrow> string \<Rightarrow> state \<Rightarrow> Document \<times> state" where
  "ingest_entry E tgs folder engine zip_info file_mime_type s =
     (let (path, s1) = save_file E (zdata zip_info) (zfilename zip_info) s;
          (doc, s2) = new_document E (basename (zfilename zip_info)) path None
                        file_mime_type (file_size zip_info) folder s1;
          (doc_tags, s3) = resolve_tags tgs s2;
          s4 = db_create_document (doc\<lparr>tags := doc_tags\<rparr>) s3;
          s5 = process_document_ocr E (doc_id doc) engine s4
      in (doc\<lparr>tags := doc_tags\<rparr>, s5))"

text \<open>The three \<open>continue\<close> tests of the loop.\<close>

definition entry_mime :: "env \<Rightarrow> SystemSettings \<Rightarrow> zip_entry \<Rightarrow> string option" where
  "entry_mime E st zip_info =
     (if is_dir zip_info then None
      else if file_size zip_info > max_file_size st then None
      else (case guess_type E (zfilename zip_info) of
              None \<Rightarrow> None
            | Some m \<Rightarrow>
                if m = [] \<or> \<not> (startswith m ''image/'' \<or> m = ''application/pdf'') then None
                else Some m))"

fun zip_loop ::
  "env \<Rightarrow> SystemSettings \<Rightarrow> string option \<Rightarrow> string \<Rightarrow> string \<Rightarrow> zip_entry list
    \<Rightarrow> Document list \<Rightarrow> state \<Rightarrow> Document list \<times> state" where
  "zip_loop E st tgs folder engine [] docs s = (docs, s)"
| "zip_loop E st tgs folder engine (zip_info # rest) docs s =
     (case entry_mime E st zip_info of
        None \<Rightarrow> zip_loop E st tgs folder engine rest docs s
      | Some file_mime_type \<Rightarrow>
          (let (d, s') = ingest_entry E tgs folder engine zip_info file_mime_type s
           in zip_loop E st tgs folder engine rest (docs @ [d]) s'))"

text \<open>Reading a variable that holds a document object, given the object as it was built:
  the object as the state has it now (\<open>update_document\<close> has mutated it in place), and
  the object as built when the state does not hold its identifier.\<close>

definition deref :: "state \<Rightarrow> Document \<Rightarrow> Document" where
  "deref s d = (case get_document s (doc_id d) of Some doc \<Rightarrow> doc | None \<Rightarrow> d)"

definition create_single ::
  "env \<Rightarrow> upload \<Rightarrow> string \<Rightarrow> string option \<Rightarrow> string \<Rightarrow> string \<Rightarrow> state \<Rightarrow> Document \<times> state" where
  "create_single E file mt tgs folder engine s =
     (let (path, s1) = save_file E (content file) (up_filename file) s;
          (thumb, s2) = (if startswith mt ''image/'' then create_thumbnail E path s1
                         else (None, s1));
          (doc, s3) = new_document E (up_filename file) path thumb mt
                        (int (length (content file))) folder s2;
          (doc_tags, s4) = resolve_tags tgs s3;
          s5 = db_create_document (doc\<lparr>tags := doc_tags\<rparr>) s4;
          s6 = process_document_ocr E (doc_id doc) engine s5
      in (deref s6 (doc\<lparr>tags := doc_tags\<rparr>), s6))"

text \<open>\<open>file.content_type or mimetypes.guess_type(filename)[0] or "application/octet-stream"\<close>.\<close>

definition upload_mime :: "env \<Rightarrow> upload \<Rightarrow> string" where
  "upload_mime E file =
     or_else (content_type file)
       (or_else (guess_type E (up_filename file)) ''application/octet-stream'')"

definition create_document ::
  "env \<Rightarrow> upload \<Rightarrow> string option \<Rightarrow> string \<Rightarrow> string option \<Rightarrow> state
    \<Rightarrow> (error + Document) \<times> state" where
  "create_document E file tgs folder ocr_eng s =
     (let st = settings s;
          sz = int (length (content file));
          engine = or_else ocr_eng (default_ocr_engine st)
      in if sz > max_file_size st then (Inl (FileTooLarge (max_file_size st)), s)
         else (let mt = upload_mime E file
               in if mt = ''application/zip'' then
                    (if sz > max_zip_size st then (Inl (ZipTooLarge (max_zip_size st)), s)
                     else (case unzip E (content file) of
                             None \<Rightarrow> (Inl BadZipFile, s)
                           | Some entries \<Rightarrow>
                               (case zip_loop E st tgs folder engine entries [] s of
                                  ([], s') \<Rightarrow> (Inl NoValidFiles, s')
                                | (d # ds, s') \<Rightarrow> (Inr (deref s' d), s'))))
                  else (let (doc, s') = create_single E file mt tgs folder engine s
                        in (Inr doc, s'))))"

definition get_document_original :: "env \<Rightarrow> state \<Rightarrow> uuid \<Rightarrow> error + (bytes \<times> string \<times> string)" where
  "get_document_original E s document_id =
     (case get_document s document_id of
        None \<Rightarrow> Inl DocumentNotFound
      | Some doc \<Rightarrow>
          (case get_file E s (file_path doc) of
             Inl e \<Rightarrow> Inl (StorageFailure e)
           | Inr (file_content, mt) \<Rightarrow> Inr (file_content, mt, filename doc)))"

definition reocr_document :: "env \<Rightarrow> uuid \<Rightarrow> string option \<Rightarrow> state \<Rightarrow> (error + string) \<times> state" where
  "reocr_document E document_id ocr_eng s =
     (case get_document s document_id of
        None \<Rightarrow> (Inl DocumentNotFound, s)
      | Some doc \<Rightarrow>
          (Inr ''OCR processing started'',
           process_document_ocr E document_id (or_else ocr_eng (default_ocr_engine (settings s))) s))"

text \<open>
  \<open>list_folders\<close>.  The Python set \<open>folders\<close> is a list without repetitions
  (\<open>List.insert\<close> adds an element that is not yet there); \<open>sorted(folders)\<close> sorts it.
\<close>

fun parts_loop :: "string list \<Rightarrow> string \<Rightarrow> string list \<Rightarrow> string list" where
  "parts_loop [] current_path folders = folders"
| "parts_loop (part # rest) current_path folders =
     (if part = [] then parts_loop rest current_path folders
      else (let current_path' = current_path @ part @ ''/''
            in parts_loop rest current_path' (List.insert current_path' folders)))"

fun folders_loop :: "Document list \<Rightarrow> string list \<Rightarrow> string list" where
  "folders_loop [] folders = folders"
| "folders_loop (doc # docs) folders =
     (let parts = split CHR ''/'' (strip_chars ''/'' (folder_path doc))
      in folders_loop docs (parts_loop parts ''/'' (List.insert ''/'' folders)))"

record folder_info =
  f_path :: string
  f_name :: string
  document_count :: nat

definition folder_entry :: "Document list \<Rightarrow> string \<Rightarrow> folder_info" where
  "folder_entry docs folder =
     \<lparr> f_path = folder,
       f_name = or_else (Some (basename (rstrip_chars ''/'' folder))) ''Root'',
       document_count = length (filter (\<lambda>doc. folder_path doc = folder) docs) \<rparr>"

definition list_folders :: "state \<Rightarrow> folder_info list" where
  "list_folders s =
     (let docs = list_documents s 0 1000000 None;
          folders = folders_loop docs []
      in map (folder_entry docs) (sort folders))"

section \<open>Reachable states\<close>

text \<open>
  The states the process can be in between two requests: it starts with an empty index
  and the default settings, whatever the storage directory holds, and then serves
  uploads, OCR runs, re-OCR requests and settings updates (\<open>db.update_settings\<close>
  replaces the settings object), in any order and with any arguments.
\<close>

inductive reachable :: "env \<Rightarrow> state \<Rightarrow> bool" for E :: env where
  start: "reachable E (init_state\<lparr>files := fs\<rparr>)"
| ingest: "reachable E s \<Longrightarrow> reachable E (snd (create_document E file tgs folder ocr_eng s))"
| ocr_run: "reachable E s \<Longrightarrow> reachable E (process_document_ocr E document_id engine s)"
| reocr: "reachable E s \<Longrightarrow> reachable E (snd (reocr_document E document_id ocr_eng s))"
| configure: "reachable E s \<Longrightarrow> reachable E (s\<lparr>settings := st\<rparr>)"

text \<open>The three OCR fields of a document are populated, or unset.\<close>

definition ocr_fields_populated :: "Document \<Rightarrow> bool" where
  "ocr_fields_populated d =
     (ocr_text d \<noteq> None \<and> ocr_engine d \<noteq> None \<and> ocr_engine_version d \<noteq> None)"

definition ocr_fields_unset :: "Document \<Rightarrow> bool" where
  "ocr_fields_unset d =
     (ocr_text d = None \<and> ocr_engine d = None \<and> ocr_engine_version d = None)"

text \<open>The relation between the status and the OCR fields that every operation keeps, for
  one document and for the index.\<close>

definition ocr_consistent :: "Document \<Rightarrow> bool" where
  "ocr_consistent d =
     ((ocr_status d = COMPLETED \<longrightarrow> ocr_fields_populated d)
      \<and> (ocr_fields_populated d \<or> ocr_fields_unset d))"

definition index_consistent :: "state \<Rightarrow> bool" where
  "index_consistent s = (\<forall>p \<in> set (documents s). ocr_consistent (snd p))"

section \<open>Archive entries in the words of the specification\<close>

text \<open>
  The specification lets an archive entry through when it is not a directory, its
  uncompressed size does not exceed the single-file limit, and its guessed type is an
  image type or PDF.
\<close>

definition qualifies :: "env \<Rightarrow> SystemSettings \<Rightarrow> zip_entry \<Rightarrow> bool" where
  "qualifies E st z =
     (\<not> is_dir z \<and> file_size z \<le> max_file_size st
      \<and> (case guess_type E (zfilename z) of
            None \<Rightarrow> False
          | Some m \<Rightarrow> startswith m ''image/'' \<or> m = ''application/pdf''))"

text \<open>Every identifier of the index has been drawn from \<open>uuid4\<close> before: a later
  call of \<open>uuid4\<close> returns none of them.\<close>

definition fresh_ids :: "state \<Rightarrow> bool" where
  "fresh_ids s = (\<forall>k \<in> fst ` set (documents s). k < next_uuid s)"

text \<open>The identifier and the file name of every document of the index, in the order of
  the index.\<close>

definition index_names :: "state \<Rightarrow> (uuid \<times> string) list" where
  "index_names s = map (\<lambda>p. (fst p, filename (snd p))) (documents s)"

section \<open>Folders in the words of the specification\<close>

text \<open>
  The specification lists as folders the prefixes of a document's folder path, split on
  the slash: the components of the path are its non-empty pieces between slashes, a
  folder is written with a slash before and after each component, and the folders of a
  path are those of the prefixes of its component list, the root \<open>/\<close> for the empty
  prefix.
\<close>

definition path_components :: "string \<Rightarrow> string list" where
  "path_components fp = filter (\<lambda>p. p \<noteq> []) (split CHR ''/'' fp)"

definition folder_of :: "string list \<Rightarrow> string" where
  "folder_of ps = ''/'' @ concat (map (\<lambda>p. p @ ''/'') ps)"

definition folder_prefixes :: "string \<Rightarrow> string list" where
  "folder_prefixes fp = map folder_of (prefixes (path_components fp))"

section \<open>The search filter in the words of the specification\<close>

text \<open>
  The specification describes a search as the conjunction of the supplied filters:
  a case-insensitive substring of the file name or of the extracted text, one of the
  requested tag names among the names of the document's tags, the folder path itself,
  a type among the requested types, and the two inclusive bounds on the upload date.
  A filter is supplied when it is given and not empty: \<open>None\<close>, the empty string and the
  empty list are the forms of an omitted filter.
\<close>

definition text_matches :: "string \<Rightarrow> Document \<Rightarrow> bool" where
  "text_matches t doc =
     (contains (lower (filename doc)) (lower t)
      \<or> (case ocr_text doc of None \<Rightarrow> False | Some ot \<Rightarrow> contains (lower ot) (lower t)))"

definition matches :: "search_args \<Rightarrow> Document \<Rightarrow> bool" where
  "matches q doc =
     ((case q_text q of None \<Rightarrow> True | Some t \<Rightarrow> t = [] \<or> text_matches t doc)
      \<and> (q_tags q = [] \<or> (\<exists>tag \<in> set (tags doc). name tag \<in> set (q_tags q)))
      \<and> (case q_folder_path q of None \<Rightarrow> True | Some f \<Rightarrow> f = [] \<or> folder_path doc = f)
      \<and> (q_mime_types q = [] \<or> mime_type doc \<in> set (q_mime_types q))
      \<and> (case q_date_from q of None \<Rightarrow> True | Some d \<Rightarrow> d \<le> upload_date doc)
      \<and> (case q_date_to q of None \<Rightarrow> True | Some d \<Rightarrow> upload_date doc \<le> d))"

section \<open>Concrete inputs\<close>

text \<open>A world in which the type of a file is read off its extension, Tesseract reads
  the text \<open>hello\<close> from every image, and every upload that starts with \<open>PK\<close> is an
  archive of two images, a text file and an image of 4000 bytes.\<close>

definition ex_entries :: "zip_entry list" where
  "ex_entries =
     [\<lparr> zfilename = ''scans/a.png'', is_dir = False, file_size = 3, zdata = ''aaa'' \<rparr>,
      \<lparr> zfilename = ''notes.txt'', is_dir = False, file_size = 2, zdata = ''nn'' \<rparr>,
      \<lparr> zfilename = ''b.png'', is_dir = False, file_size = 2, zdata = ''bb'' \<rparr>,
      \<lparr> zfilename = ''huge.png'', is_dir = False, file_size = 4000, zdata = ''h'' \<rparr>]"

definition ex_guess_type :: "string \<Rightarrow> string option" where
  "ex_guess_type n =
     (let e = splitext_ext n in
      if e = ''.png'' then Some ''image/png''
      else if e = ''.pdf'' then Some ''application/pdf''
      else if e = ''.txt'' then Some ''text/plain''
      else if e = ''.zip'' then Some ''application/zip''
      else None)"

definition ex_env :: env where
  "ex_env =
     \<lparr> guess_type = ex_guess_type,
       uuid_str = (\<lambda>u. CHR ''u'' # replicate u CHR ''0''),
       utcnow = (\<lambda>u. int u),
       unzip = (\<lambda>c. if take 2 c = ''PK'' then Some ex_entries else None),
       make_thumbnail = (\<lambda>c. None),
       tesseract_version = ''5.3.0'',
       EASYOCR_AVAILABLE = False,
       PADDLEOCR_AVAILABLE = False,
       PDF2IMAGE_AVAILABLE = False,
       recognize = (\<lambda>engine img. Inr ''hello''),
       convert_from_bytes = (\<lambda>pdf. Inl ''no poppler'') \<rparr>"

text \<open>The initial state with a single-file limit of 1000 bytes and an archive limit of
  5000 bytes.\<close>

definition ex_state :: state where
  "ex_state = init_state\<lparr>settings := default_settings\<lparr>max_file_size := 1000, max_zip_size := 5000\<rparr>\<rparr>"

definition ex_png :: upload where
  "ex_png = \<lparr> content = ''abc'', up_filename = ''a.png'', content_type = Some ''image/png'' \<rparr>"

definition ex_big :: upload where
  "ex_big = \<lparr> content = replicate 1001 CHR ''x'', up_filename = ''big.png'',
              content_type = Some ''image/png'' \<rparr>"

text \<open>The state after the upload \<open>ex_png\<close>, and the same state after the stored file
  has disappeared from the storage directory.\<close>

definition ex_ingested :: state where
  "ex_ingested = snd (create_document ex_env ex_png None ''/'' None ex_state)"

definition ex_lost :: state where
  "ex_lost = ex_ingested\<lparr>files := Map.empty\<rparr>"

text \<open>The archive upload, and the state after it: two documents.\<close>

definition ex_zip :: upload where
  "ex_zip = \<lparr> content = ''PK'', up_filename = ''scans.zip'',
              content_type = Some ''application/zip'' \<rparr>"






text \<open>The state after the upload \<open>ex_png\<close> with the tag \<open>Invoice\<close>.\<close>

definition ex_tagged :: state where
  "ex_tagged = snd (create_document ex_env ex_png (Some ''Invoice'') ''/'' None ex_state)"


text \<open>The state \<open>ex_ingested\<close> after a re-OCR request for document 1 that names an engine
  the factory does not know.\<close>

definition ex_refailed :: state where
  "ex_refailed = snd (reocr_document ex_env 1 (Some ''abbyy'') ex_ingested)"


text \<open>The state after the archive upload into the folder \<open>/2024/q/\<close>.\<close>

definition ex_foldered :: state where
  "ex_foldered = snd (create_document ex_env ex_zip None ''/2024/q/'' None ex_state)"

section \<open>Properties\<close>

lemma split_nonempty: "split sep s \<noteq> []"
  by (induction s) (auto split: list.splits)

subsection \<open>Oversized uploads\<close>

text \<open>
  Claim C3.  An upload whose byte size exceeds \<open>max_file_size\<close> is refused with the
  413 error \<open>FileTooLarge\<close>, and the state returned is the state given: the storage
  directory holds no new object and the document index is unchanged.
\<close>

theorem oversized_upload_rejected:
  assumes "int (length (content file)) > max_file_size (settings s)"
  shows "create_document E file tgs folder ocr_eng s
           = (Inl (FileTooLarge (max_file_size (settings s))), s)
         \<and> status_code (FileTooLarge (max_file_size (settings s))) = 413
         \<and> files (snd (create_document E file tgs folder ocr_eng s)) = files s
         \<and> documents (snd (create_document E file tgs folder ocr_eng s)) = documents s"
  using assms by (simp add: create_document_def Let_def)

theorem oversized_upload_rejected_witness:
  "int (length (content ex_big)) > max_file_size (settings ex_state)
   \<and> create_document ex_env ex_big None ''/'' None ex_state = (Inl (FileTooLarge 1000), ex_state)"
proof -
  have h: "int (length (content ex_big)) > max_file_size (settings ex_state)"
    by (simp add: ex_big_def ex_state_def)
  have m: "max_file_size (settings ex_state) = 1000"
    by (simp add: ex_state_def)
  from oversized_upload_rejected [OF h, of ex_env None "''/''" None] h m
  show ?thesis by simp
qed

subsection \<open>What each operation leaves unchanged\<close>

lemma save_file_frame [simp]:
  "settings (snd (save_file E c n s)) = settings s"
  "db_tags (snd (save_file E c n s)) = db_tags s"
  "documents (snd (save_file E c n s)) = documents s"
  "next_uuid (snd (save_file E c n s)) = Suc (next_uuid s)"
  by (simp_all add: save_file_def Let_def)

lemma create_thumbnail_frame [simp]:
  "settings (snd (create_thumbnail E p s)) = settings s"
  "db_tags (snd (create_thumbnail E p s)) = db_tags s"
  "documents (snd (create_thumbnail E p s)) = documents s"
  by (simp_all add: create_thumbnail_def case_prod_beta split: sum.splits option.splits)

lemma create_thumbnail_next_uuid: "next_uuid s \<le> next_uuid (snd (create_thumbnail E p s))"
  by (simp add: create_thumbnail_def case_prod_beta split: sum.splits option.splits)

lemma new_document_frame [simp]:
  "settings (snd (new_document E f p t m z fo s)) = settings s"
  "db_tags (snd (new_document E f p t m z fo s)) = db_tags s"
  "documents (snd (new_document E f p t m z fo s)) = documents s"
  "next_uuid (snd (new_document E f p t m z fo s)) = Suc (next_uuid s)"
  "doc_id (fst (new_document E f p t m z fo s)) = next_uuid s"
  "ocr_status (fst (new_document E f p t m z fo s)) = PENDING"
  "ocr_text (fst (new_document E f p t m z fo s)) = None"
  "ocr_engine (fst (new_document E f p t m z fo s)) = None"
  "ocr_engine_version (fst (new_document E f p t m z fo s)) = None"
  "filename (fst (new_document E f p t m z fo s)) = f"
  by (simp_all add: new_document_def)

lemma tags_loop_frame [simp]:
  "settings (snd (tags_loop ns acc s)) = settings s"
  "documents (snd (tags_loop ns acc s)) = documents s"
  by (induction ns acc s rule: tags_loop.induct; simp add: create_tag_def Let_def split: option.splits)+

lemma tags_loop_next_uuid: "next_uuid s \<le> next_uuid (snd (tags_loop ns acc s))"
proof (induction ns acc s rule: tags_loop.induct)
  case (1 doc_tags s)
  then show ?case by simp
next
  case (2 tag_name rest doc_tags s)
  then show ?case
    by (auto simp: create_tag_def Let_def split: option.splits intro: Suc_leD)
qed

lemma resolve_tags_frame [simp]:
  "settings (snd (resolve_tags tgs s)) = settings s"
  "documents (snd (resolve_tags tgs s)) = documents s"
  by (simp_all add: resolve_tags_def split: option.splits)

lemma resolve_tags_next_uuid: "next_uuid s \<le> next_uuid (snd (resolve_tags tgs s))"
  by (simp add: resolve_tags_def tags_loop_next_uuid split: option.splits)

lemma db_create_document_frame [simp]:
  "settings (db_create_document d s) = settings s"
  "db_tags (db_create_document d s) = db_tags s"
  "next_uuid (db_create_document d s) = next_uuid s"
  "files (db_create_document d s) = files s"
  by (simp_all add: db_create_document_def)

lemma update_document_frame [simp]:
  "settings (update_document i us s) = settings s"
  "db_tags (update_document i us s) = db_tags s"
  "next_uuid (update_document i us s) = next_uuid s"
  "files (update_document i us s) = files s"
  by (simp_all add: update_document_def split: option.splits)

lemma process_document_ocr_frame [simp]:
  "settings (process_document_ocr E i eng s) = settings s"
  "db_tags (process_document_ocr E i eng s) = db_tags s"
  "next_uuid (process_document_ocr E i eng s) = next_uuid s"
  "files (process_document_ocr E i eng s) = files s"
  by (simp_all add: process_document_ocr_def Let_def case_prod_beta split: option.splits sum.splits)

subsection \<open>Lookups after the index operations\<close>

lemma get_document_db_create:
  "get_document (db_create_document d s) i = (if i = doc_id d then Some d else get_document s i)"
  by (simp add: get_document_def db_create_document_def update_conv')

lemma get_document_update_document:
  "get_document (update_document i us s) j =
     (if j = i then map_option (fold setattr us) (get_document s i) else get_document s j)"
  by (auto simp: get_document_def update_document_def update_conv' split: option.splits)

lemma process_document_ocr_other:
  "j \<noteq> i \<Longrightarrow> get_document (process_document_ocr E i eng s) j = get_document s j"
  by (auto simp: process_document_ocr_def get_document_update_document Let_def
           split: option.splits sum.splits prod.splits)

lemma process_document_ocr_self:
  assumes "get_document s i = Some d"
  shows "\<exists>d'. get_document (process_document_ocr E i eng s) i = Some d'
            \<and> (ocr_status d' = COMPLETED \<or> ocr_status d' = FAILED)
            \<and> tags d' = tags d \<and> doc_id d' = doc_id d"
  using assms
  by (auto simp: process_document_ocr_def get_document_update_document Let_def
        ocr_completed_def ocr_failed_def
           split: option.splits sum.splits prod.splits)

subsection \<open>The status of a freshly ingested document\<close>

lemma create_single_settled:
  assumes "create_single E file mt tgs folder engine s = (doc, s')"
  shows "get_document s' (doc_id doc) = Some doc
         \<and> (ocr_status doc = COMPLETED \<or> ocr_status doc = FAILED)"
proof -
  obtain path s1 where a: "save_file E (content file) (up_filename file) s = (path, s1)"
    by (cases "save_file E (content file) (up_filename file) s")
  obtain thumb s2 where
    b: "(if startswith mt ''image/'' then create_thumbnail E path s1 else (None, s1)) = (thumb, s2)"
    by (cases "if startswith mt ''image/'' then create_thumbnail E path s1 else (None, s1)")
  obtain d0 s3 where
    c: "new_document E (up_filename file) path thumb mt (int (length (content file))) folder s2
          = (d0, s3)"
    by (cases "new_document E (up_filename file) path thumb mt (int (length (content file))) folder s2")
  obtain doc_tags s4 where d: "resolve_tags tgs s3 = (doc_tags, s4)"
    by (cases "resolve_tags tgs s3")
  define built where "built = d0\<lparr>tags := doc_tags\<rparr>"
  define s5 where "s5 = db_create_document built s4"
  have s': "s' = process_document_ocr E (doc_id built) engine s5"
   and doc: "doc = deref s' built"
    using assms a b c d by (auto simp add: create_single_def built_def s5_def Let_def)
  have "get_document s5 (doc_id built) = Some built"
    by (simp add: s5_def get_document_db_create)
  from process_document_ocr_self [OF this, of E engine]
  obtain d' where "get_document s' (doc_id built) = Some d'"
     "ocr_status d' = COMPLETED \<or> ocr_status d' = FAILED" "doc_id d' = doc_id built"
    unfolding s' by blast
  then show ?thesis by (simp add: doc deref_def)
qed

text \<open>
  Claim C1, as the code has it.  The handler awaits \<open>process_document_ocr\<close> before it
  returns, and the OCR run ends in \<open>COMPLETED\<close> or \<open>FAILED\<close>.  So for every upload
  within the size limit that is not an archive, the handler returns a document, the
  document is the one the index holds under its identifier, and its status at the
  moment of return is \<open>COMPLETED\<close> or \<open>FAILED\<close>: the OCR run is over when the caller
  gets the answer.
\<close>

theorem single_file_ingestion_returns_settled:
  assumes "int (length (content file)) \<le> max_file_size (settings s)"
      and "upload_mime E file \<noteq> ''application/zip''"
  shows "\<exists>doc. fst (create_document E file tgs folder ocr_eng s) = Inr doc
           \<and> (ocr_status doc = COMPLETED \<or> ocr_status doc = FAILED)
           \<and> get_document (snd (create_document E file tgs folder ocr_eng s)) (doc_id doc)
               = Some doc"
  using assms create_single_settled
  by (auto simp add: create_document_def Let_def split: prod.splits)

theorem single_file_ingestion_returns_settled_witness:
  "int (length (content ex_png)) \<le> max_file_size (settings ex_state)
   \<and> upload_mime ex_env ex_png \<noteq> ''application/zip''
   \<and> (\<exists>doc. fst (create_document ex_env ex_png None ''/'' None ex_state) = Inr doc
           \<and> (ocr_status doc = COMPLETED \<or> ocr_status doc = FAILED)
           \<and> get_document (snd (create_document ex_env ex_png None ''/'' None ex_state))
                (doc_id doc) = Some doc)"
proof -
  have h1: "int (length (content ex_png)) \<le> max_file_size (settings ex_state)"
    by (simp add: ex_png_def ex_state_def)
  have h2: "upload_mime ex_env ex_png \<noteq> ''application/zip''"
    by (simp add: upload_mime_def ex_png_def)
  from single_file_ingestion_returns_settled [OF h1 h2, of None "''/''" None] h1 h2
  show ?thesis by blast
qed

text \<open>The upload \<open>ex_png\<close> is a valid single file, and the document the handler returns
  for it is \<open>COMPLETED\<close>, not \<open>PENDING\<close>.\<close>

theorem returned_document_not_pending:
  "map_sum id ocr_status (fst (create_document ex_env ex_png None ''/'' None ex_state))
     = Inr COMPLETED
   \<and> map_sum id ocr_status (fst (create_document ex_env ex_png None ''/'' None ex_state))
     \<noteq> Inr PENDING"
  by code_simp

subsection \<open>Fetching the original bytes\<close>

text \<open>
  Claim C9, as the code has it.  \<open>get_document_original\<close> answers an identifier the
  index does not hold with the 404 error; when the document exists and the storage
  backend raises a \<open>StorageError\<close> for its path, the handler answers with status 500
  and the message of the storage error, and a local backend raises that error for
  every path the storage directory does not hold.
\<close>

theorem original_retrieval_errors:
  "(get_document s i = None \<longrightarrow>
      get_document_original E s i = Inl DocumentNotFound \<and> status_code DocumentNotFound = 404)
   \<and> (\<forall>d. get_document s i = Some d \<and> storage_type (settings s) \<noteq> ''s3''
            \<and> files s (file_path d) = None \<longrightarrow>
          get_document_original E s i = Inl (StorageFailure (''File not found: '' @ file_path d))
          \<and> status_code (StorageFailure (''File not found: '' @ file_path d)) = 500)"
  by (simp add: get_document_original_def get_file_def)

theorem original_retrieval_errors_witness:
  "get_document ex_lost 7 = None
   \<and> get_document_original ex_env ex_lost 7 = Inl DocumentNotFound
   \<and> map_option file_path (get_document ex_lost 1) = Some ''storage/documents/u.png''
   \<and> storage_type (settings ex_lost) \<noteq> ''s3''
   \<and> files ex_lost ''storage/documents/u.png'' = None
   \<and> get_document_original ex_env ex_lost 1
        = Inl (StorageFailure ''File not found: storage/documents/u.png'')"
proof -
  have a: "get_document ex_lost 7 = None"
    by code_simp
  have b: "map_option file_path (get_document ex_lost 1) = Some ''storage/documents/u.png''"
    by code_simp
  have c: "storage_type (settings ex_lost) \<noteq> ''s3''"
    by code_simp
  have d: "files ex_lost ''storage/documents/u.png'' = None"
    by (simp add: ex_lost_def)
  from b obtain doc where e: "get_document ex_lost 1 = Some doc"
    and f: "file_path doc = ''storage/documents/u.png''"
    by auto
  from original_retrieval_errors [of ex_lost 7 ex_env] a
  have g: "get_document_original ex_env ex_lost 7 = Inl DocumentNotFound"
    by simp
  from original_retrieval_errors [of ex_lost 1 ex_env] c d e f
  have "get_document_original ex_env ex_lost 1
          = Inl (StorageFailure ''File not found: storage/documents/u.png'')"
    by simp
  with a b c d g show ?thesis by simp
qed

text \<open>In \<open>ex_lost\<close> the document 1 is in the index and its file is gone: the handler
  answers with the storage error and status 500, not with the 404 error.\<close>

theorem missing_object_is_not_notfound:
  "get_document_original ex_env ex_lost 1
     = Inl (StorageFailure ''File not found: storage/documents/u.png'')
   \<and> map_sum status_code id (get_document_original ex_env ex_lost 1) = Inl 500
   \<and> get_document_original ex_env ex_lost 1 \<noteq> Inl DocumentNotFound"
  by code_simp

subsection \<open>Search\<close>

lemma filter_text_eq:
  "filter_text t xs =
     filter (\<lambda>d. case t of None \<Rightarrow> True | Some t0 \<Rightarrow> t0 = [] \<or> text_matches t0 d) xs"
  by (auto simp: filter_text_def text_matches_def Let_def lower_def
           split: option.splits intro!: filter_cong)

lemma filter_tags_eq:
  "filter_tags ts xs = filter (\<lambda>d. ts = [] \<or> (\<exists>tag \<in> set (tags d). name tag \<in> set ts)) xs"
  by (auto simp: filter_tags_def list_ex_iff)

lemma filter_folder_eq:
  "filter_folder fp xs =
     filter (\<lambda>d. case fp of None \<Rightarrow> True | Some f \<Rightarrow> f = [] \<or> folder_path d = f) xs"
  by (auto simp: filter_folder_def split: option.splits)

lemma filter_mime_eq:
  "filter_mime ms xs = filter (\<lambda>d. ms = [] \<or> mime_type d \<in> set ms) xs"
  by (auto simp: filter_mime_def)

lemma filter_date_from_eq:
  "filter_date_from d xs =
     filter (\<lambda>doc. case d of None \<Rightarrow> True | Some d0 \<Rightarrow> d0 \<le> upload_date doc) xs"
  by (auto simp: filter_date_from_def split: option.splits)

lemma filter_date_to_eq:
  "filter_date_to d xs =
     filter (\<lambda>doc. case d of None \<Rightarrow> True | Some d0 \<Rightarrow> upload_date doc \<le> d0) xs"
  by (auto simp: filter_date_to_def split: option.splits)

lemma search_documents_matches:
  "search_documents s q =
     py_slice (sort_results (q_sort_by q) (q_sort_order q)
                 (filter (matches q) (map snd (documents s))))
       (q_skip q) (q_skip q + q_limit q)"
proof -
  have "filter_date_to (q_date_to q) (filter_date_from (q_date_from q)
          (filter_mime (q_mime_types q) (filter_folder (q_folder_path q)
             (filter_tags (q_tags q) (filter_text (q_text q) xs)))))
        = filter (matches q) xs" for xs
    unfolding filter_text_eq filter_tags_eq filter_folder_eq filter_mime_eq
      filter_date_from_eq filter_date_to_eq filter_filter
    by (rule filter_cong) (auto simp: matches_def)
  then show ?thesis
    by (simp add: search_documents_def Let_def)
qed

lemma set_py_slice: "set (py_slice xs a b) \<subseteq> set xs"
  by (auto simp: py_slice_def Let_def dest: in_set_takeD in_set_dropD)

lemma py_slice_all: "int (length xs) \<le> l \<Longrightarrow> py_slice xs 0 (0 + l) = xs"
  by (simp add: py_slice_def clamp_index_def Let_def)

lemma set_sort_results: "set (sort_results sb so xs) = set xs"
  by (simp add: sort_results_def py_sort_def Let_def)





text \<open>
  Claim C10.  The tag filter of a search compares tag names with \<open>in\<close> on a set of
  strings, that is by equality: a document none of whose tag names is literally among
  the requested names is not returned, whatever the letter case.
\<close>

theorem search_tag_filter_case_sensitive:
  assumes "q_tags q \<noteq> []" and "\<forall>tag \<in> set (tags doc). name tag \<notin> set (q_tags q)"
  shows "doc \<notin> set (search_documents s q)"
proof
  assume "doc \<in> set (search_documents s q)"
  then have "doc \<in> set (filter (matches q) (map snd (documents s)))"
    unfolding search_documents_matches
    using set_py_slice [of "sort_results (q_sort_by q) (q_sort_order q)
                 (filter (matches q) (map snd (documents s)))" "q_skip q" "q_skip q + q_limit q"]
    by (auto simp: set_sort_results)
  then have "matches q doc" by simp
  with assms show False by (auto simp: matches_def)
qed

text \<open>The document tagged \<open>Invoice\<close> is not found by the tag \<open>invoice\<close>, is found by the
  tag \<open>Invoice\<close>, and the tag lookup of ingestion finds the tag under \<open>invoice\<close>.\<close>

theorem search_tag_filter_case_sensitive_witness:
  "q_tags (default_search\<lparr>q_tags := [''invoice'']\<rparr>) \<noteq> []
   \<and> map (\<lambda>d. map name (tags d)) (map snd (documents ex_tagged)) = [[''Invoice'']]
   \<and> snd (hd (documents ex_tagged))
        \<notin> set (search_documents ex_tagged (default_search\<lparr>q_tags := [''invoice'']\<rparr>))
   \<and> search_documents ex_tagged (default_search\<lparr>q_tags := [''invoice'']\<rparr>) = []
   \<and> map filename (search_documents ex_tagged (default_search\<lparr>q_tags := [''Invoice'']\<rparr>))
        = [''a.png'']
   \<and> map_option name (get_tag_by_name ex_tagged ''invoice'') = Some ''Invoice''"
proof -
  let ?q = "default_search\<lparr>q_tags := [''invoice'']\<rparr>"
  let ?d = "snd (hd (documents ex_tagged))"
  have h1: "q_tags ?q \<noteq> []" by simp
  have a: "map (\<lambda>d. map name (tags d)) (map snd (documents ex_tagged)) = [[''Invoice'']]"
    by code_simp
  have t: "map name (tags ?d) = [''Invoice'']"
    by code_simp
  have h2: "\<forall>tag \<in> set (tags ?d). name tag \<notin> set (q_tags ?q)"
  proof
    fix tag assume "tag \<in> set (tags ?d)"
    then have "name tag \<in> set (map name (tags ?d))" by simp
    then show "name tag \<notin> set (q_tags ?q)" unfolding t by simp
  qed
  have b: "search_documents ex_tagged ?q = []" by code_simp
  have c: "map filename (search_documents ex_tagged (default_search\<lparr>q_tags := [''Invoice'']\<rparr>))
        = [''a.png'']" by code_simp
  have d: "map_option name (get_tag_by_name ex_tagged ''invoice'') = Some ''Invoice''"
    by code_simp
  from search_tag_filter_case_sensitive [OF h1 h2, of ex_tagged] h1 a b c d
  show ?thesis by simp
qed

subsection \<open>Tag resolution\<close>


lemma strip_Nil [simp]: "strip [] = []"
  by (simp add: strip_def strip_by_def)










subsection \<open>The OCR fields and the status\<close>

lemma in_set_update:
  "p \<in> set (AList.update k v al) \<Longrightarrow> p = (k, v) \<or> p \<in> set al"
  by (induction al) (auto split: if_splits)

lemma ocr_consistent_updates:
  assumes "ocr_consistent d"
  shows "ocr_consistent (fold setattr [Set_ocr_status PROCESSING] d)"
    and "ocr_consistent (fold setattr (ocr_completed t p) d)"
    and "ocr_consistent (fold setattr (ocr_failed e) d)"
  using assms
  by (auto simp: ocr_consistent_def ocr_fields_populated_def ocr_fields_unset_def
        ocr_completed_def ocr_failed_def)

lemma index_consistent_update_document:
  assumes "index_consistent s"
      and "\<And>d. ocr_consistent d \<Longrightarrow> ocr_consistent (fold setattr us d)"
  shows "index_consistent (update_document i us s)"
proof (cases "map_of (documents s) i")
  case None
  then show ?thesis using assms(1) by (simp add: update_document_def)
next
  case (Some d)
  then have "(i, d) \<in> set (documents s)" by (rule map_of_SomeD)
  with assms(1) have "ocr_consistent d" by (auto simp: index_consistent_def)
  then have "ocr_consistent (fold setattr us d)" by (rule assms(2))
  with assms(1) Some show ?thesis
    by (auto simp: index_consistent_def update_document_def dest!: in_set_update)
qed

lemma index_consistent_process_document_ocr:
  assumes "index_consistent s"
  shows "index_consistent (process_document_ocr E i eng s)"
proof (cases "get_document s i")
  case None
  then show ?thesis using assms by (simp add: process_document_ocr_def)
next
  case (Some d)
  let ?s1 = "update_document i [Set_ocr_status PROCESSING] s"
  have 1: "index_consistent ?s1"
    using assms by (rule index_consistent_update_document) (rule ocr_consistent_updates)
  show ?thesis
  proof (cases "run_ocr E ?s1 (file_path d) eng")
    case (Inl e)
    then have "process_document_ocr E i eng s = update_document i (ocr_failed e) ?s1"
      using Some by (simp add: process_document_ocr_def Let_def)
    then show ?thesis
      using index_consistent_update_document [OF 1, of "ocr_failed e"] ocr_consistent_updates(3)
      by simp
  next
    case (Inr r)
    then have "process_document_ocr E i eng s
                 = update_document i (ocr_completed (fst r) (snd r)) ?s1"
      using Some by (simp add: process_document_ocr_def Let_def case_prod_beta)
    then show ?thesis
      using index_consistent_update_document [OF 1, of "ocr_completed (fst r) (snd r)"]
        ocr_consistent_updates(2)
      by simp
  qed
qed

lemma index_consistent_db_create:
  "index_consistent s \<Longrightarrow> ocr_consistent d \<Longrightarrow> index_consistent (db_create_document d s)"
  by (auto simp: index_consistent_def db_create_document_def dest!: in_set_update)

lemma ocr_consistent_new_document:
  "ocr_consistent ((fst (new_document E f p t m z fo s))\<lparr>tags := ts\<rparr>)"
  by (simp add: ocr_consistent_def ocr_fields_populated_def ocr_fields_unset_def new_document_def)

lemma index_consistent_documents:
  "documents s' = documents s \<Longrightarrow> index_consistent s \<Longrightarrow> index_consistent s'"
  by (simp add: index_consistent_def)

lemma index_consistent_create_single:
  assumes "index_consistent s"
  shows "index_consistent (snd (create_single E file mt tgs folder engine s))"
  unfolding create_single_def Let_def case_prod_beta snd_conv
  apply (rule index_consistent_process_document_ocr)
  apply (rule index_consistent_db_create)
   apply (rule index_consistent_documents [OF _ assms])
   apply simp
  apply (rule ocr_consistent_new_document)
  done

lemma index_consistent_ingest_entry:
  assumes "index_consistent s"
  shows "index_consistent (snd (ingest_entry E tgs folder engine zi m s))"
  unfolding ingest_entry_def Let_def case_prod_beta snd_conv
  apply (rule index_consistent_process_document_ocr)
  apply (rule index_consistent_db_create)
   apply (rule index_consistent_documents [OF _ assms])
   apply simp
  apply (rule ocr_consistent_new_document)
  done

lemma index_consistent_zip_loop:
  "index_consistent s \<Longrightarrow> index_consistent (snd (zip_loop E st tgs folder engine entries acc s))"
proof (induction entries arbitrary: acc s)
  case Nil
  then show ?case by simp
next
  case (Cons z entries)
  then show ?case
    by (auto simp: case_prod_beta Let_def index_consistent_ingest_entry split: option.splits)
qed

lemma index_consistent_create_document:
  assumes "index_consistent s"
  shows "index_consistent (snd (create_document E file tgs folder ocr_eng s))"
  using assms index_consistent_zip_loop [OF assms] index_consistent_create_single [OF assms]
  by (auto simp: create_document_def Let_def case_prod_beta split: option.splits list.splits prod.splits)

lemma reachable_index_consistent: "reachable E s \<Longrightarrow> index_consistent s"
proof (induction rule: reachable.induct)
  case (start fs)
  then show ?case by (simp add: index_consistent_def init_state_def)
next
  case (ingest s upl tgs folder ocr_eng)
  then show ?case by (simp add: index_consistent_create_document)
next
  case (ocr_run s document_id engine)
  then show ?case by (simp add: index_consistent_process_document_ocr)
next
  case (reocr s document_id ocr_eng)
  then show ?case
    by (simp add: reocr_document_def index_consistent_process_document_ocr split: option.splits)
next
  case (configure s st)
  then show ?case by (simp add: index_consistent_def)
qed

lemma reachable_ex_state: "reachable ex_env ex_state"
proof -
  have "reachable ex_env (init_state\<lparr>files := Map.empty\<rparr>)"
    by (rule reachable.start)
  moreover have "init_state\<lparr>files := Map.empty\<rparr> = init_state"
    by (simp add: init_state_def)
  ultimately have "reachable ex_env init_state"
    by simp
  then show ?thesis
    unfolding ex_state_def by (rule reachable.configure)
qed

text \<open>
  Claim C2, as the code has it.  For every document the index holds after any sequence of
  uploads, OCR runs, re-OCR requests and settings updates: when its status is
  \<open>COMPLETED\<close>, the extracted text, the engine name and the engine version are all
  populated; and in every status the three fields are populated together or unset
  together.  The converse of the first part does not hold: the fields of an earlier
  completed run stay when a later run fails.
\<close>

theorem completed_documents_have_ocr_fields:
  assumes "reachable E s" and "get_document s i = Some d"
  shows "(ocr_status d = COMPLETED \<longrightarrow> ocr_fields_populated d)
         \<and> (ocr_fields_populated d \<or> ocr_fields_unset d)"
proof -
  from assms(2) have "(i, d) \<in> set (documents s)"
    unfolding get_document_def by (rule map_of_SomeD)
  with reachable_index_consistent [OF assms(1)] show ?thesis
    by (auto simp: index_consistent_def ocr_consistent_def)
qed

theorem completed_documents_have_ocr_fields_witness:
  "reachable ex_env ex_ingested
   \<and> (\<exists>d. get_document ex_ingested 1 = Some d \<and> ocr_status d = COMPLETED
          \<and> ocr_fields_populated d)
   \<and> map_option (\<lambda>d. (ocr_status d, ocr_text d, ocr_engine d, ocr_engine_version d))
        (get_document ex_ingested 1)
       = Some (COMPLETED, Some ''hello'', Some ''tesseract'', Some ''5.3.0'')"
proof -
  have "reachable ex_env ex_state"
    by (rule reachable_ex_state)
  then have r: "reachable ex_env ex_ingested"
    unfolding ex_ingested_def by (rule reachable.ingest)
  have v: "map_option (\<lambda>d. (ocr_status d, ocr_text d, ocr_engine d, ocr_engine_version d))
        (get_document ex_ingested 1)
       = Some (COMPLETED, Some ''hello'', Some ''tesseract'', Some ''5.3.0'')"
    by code_simp
  then obtain d where d: "get_document ex_ingested 1 = Some d" "ocr_status d = COMPLETED"
    by auto
  from completed_documents_have_ocr_fields [OF r d(1)] d(2)
  have "ocr_fields_populated d" by simp
  with r v d show ?thesis by blast
qed

text \<open>The state \<open>ex_refailed\<close> is reached by one upload and one re-OCR request, and its
  document 1 is \<open>FAILED\<close> with all three OCR fields populated.\<close>

theorem failed_document_keeps_ocr_fields:
  "reachable ex_env ex_refailed
   \<and> map_option (\<lambda>d. (ocr_status d, ocr_text d, ocr_engine d, ocr_engine_version d))
        (get_document ex_refailed 1)
       = Some (FAILED, Some ''hello'', Some ''tesseract'', Some ''5.3.0'')"
proof -
  have "reachable ex_env ex_state"
    by (rule reachable_ex_state)
  then have "reachable ex_env ex_ingested"
    unfolding ex_ingested_def by (rule reachable.ingest)
  then have r: "reachable ex_env ex_refailed"
    unfolding ex_refailed_def by (rule reachable.reocr)
  have "map_option (\<lambda>d. (ocr_status d, ocr_text d, ocr_engine d, ocr_engine_version d))
        (get_document ex_refailed 1)
       = Some (FAILED, Some ''hello'', Some ''tesseract'', Some ''5.3.0'')"
    by code_simp
  with r show ?thesis by simp
qed

subsection \<open>Archives\<close>

lemma entry_mime_qualifies: "entry_mime E st z \<noteq> None \<longleftrightarrow> qualifies E st z"
  by (auto simp: entry_mime_def qualifies_def startswith_def split: option.splits)

lemma update_map_preserved:
  "map_of al k = Some d \<Longrightarrow> h (k, v) = h (k, d) \<Longrightarrow> map h (AList.update k v al) = map h al"
  by (induction al) (auto split: if_splits)

lemma update_fresh_key: "k \<notin> fst ` set al \<Longrightarrow> AList.update k v al = al @ [(k, v)]"
  by (induction al) auto

lemma filename_setattr [simp]: "filename (setattr u d) = filename d"
  by (cases u) simp_all

lemma filename_fold_setattr [simp]: "filename (fold setattr us d) = filename d"
  by (induction us arbitrary: d) simp_all

lemma index_names_update_document [simp]:
  "index_names (update_document i us s) = index_names s"
  by (simp add: index_names_def update_document_def update_map_preserved split: option.splits)

lemma index_names_process_document_ocr [simp]:
  "index_names (process_document_ocr E i eng s) = index_names s"
  by (simp add: process_document_ocr_def Let_def case_prod_beta split: option.splits sum.splits)

lemma index_names_documents: "documents s' = documents s \<Longrightarrow> index_names s' = index_names s"
  by (simp add: index_names_def)

lemma index_names_db_create:
  "doc_id d \<notin> fst ` set (documents s) \<Longrightarrow>
     index_names (db_create_document d s) = index_names s @ [(doc_id d, filename d)]"
  by (simp add: index_names_def db_create_document_def update_fresh_key)

lemma fresh_ids_names: "fresh_ids s \<longleftrightarrow> (\<forall>k \<in> fst ` set (index_names s). k < next_uuid s)"
  by (force simp: fresh_ids_def index_names_def)

text \<open>One pass through the body of the archive loop.\<close>

lemma ingest_entry_effect:
  fixes E :: env and tgs :: "string option" and folder engine m :: string and z :: zip_entry
  assumes "fresh_ids s"
  defines "r \<equiv> ingest_entry E tgs folder engine z m s"
  shows "index_names (snd r) = index_names s @ [(doc_id (fst r), basename (zfilename z))]"
    and "fresh_ids (snd r)"
    and "next_uuid s \<le> doc_id (fst r)" and "doc_id (fst r) < next_uuid (snd r)"
    and "settings (snd r) = settings s"
    and "filename (fst r) = basename (zfilename z)"
proof -
  define s1 where "s1 = snd (save_file E (zdata z) (zfilename z) s)"
  define nd where "nd = new_document E (basename (zfilename z))
                          (fst (save_file E (zdata z) (zfilename z) s)) None m (file_size z) folder s1"
  define rt where "rt = resolve_tags tgs (snd nd)"
  define built where "built = (fst nd)\<lparr>tags := fst rt\<rparr>"
  have r: "r = (built, process_document_ocr E (doc_id built) engine (db_create_document built (snd rt)))"
    unfolding r_def ingest_entry_def Let_def case_prod_beta built_def rt_def nd_def s1_def
    by simp
  have id: "doc_id built = Suc (next_uuid s)"
    by (simp add: built_def nd_def s1_def)
  have docs: "documents (snd rt) = documents s"
    by (simp add: rt_def nd_def s1_def)
  have nu: "Suc (Suc (next_uuid s)) \<le> next_uuid (snd rt)"
    using resolve_tags_next_uuid [of "snd nd" tgs] by (simp add: rt_def nd_def s1_def)
  have notin: "doc_id built \<notin> fst ` set (documents (snd rt))"
    using assms(1) unfolding docs id fresh_ids_def by auto
  have fn: "filename built = basename (zfilename z)"
    by (simp add: built_def nd_def)
  show n: "index_names (snd r) = index_names s @ [(doc_id (fst r), basename (zfilename z))]"
    using index_names_db_create [OF notin] index_names_documents [OF docs] fn
    by (simp add: r)
  show "fresh_ids (snd r)"
    unfolding fresh_ids_names n using assms(1) nu id
    by (auto simp: r fresh_ids_names)
  show "next_uuid s \<le> doc_id (fst r)" by (simp add: r id)
  show "doc_id (fst r) < next_uuid (snd r)" using nu by (simp add: r id)
  show "settings (snd r) = settings s" by (simp add: r rt_def nd_def s1_def)
  show "filename (fst r) = basename (zfilename z)" by (simp add: r fn)
qed


lemma zip_loop_effect:
  assumes "fresh_ids s"
  shows "\<exists>created.
           fst (zip_loop E st tgs folder engine entries acc s) = acc @ created
         \<and> index_names (snd (zip_loop E st tgs folder engine entries acc s))
             = index_names s @ map (\<lambda>d. (doc_id d, filename d)) created
         \<and> map filename created = map (\<lambda>z. basename (zfilename z)) (filter (qualifies E st) entries)
         \<and> fresh_ids (snd (zip_loop E st tgs folder engine entries acc s))
         \<and> next_uuid s \<le> next_uuid (snd (zip_loop E st tgs folder engine entries acc s))
         \<and> (\<forall>d \<in> set created. next_uuid s \<le> doc_id d
                \<and> doc_id d < next_uuid (snd (zip_loop E st tgs folder engine entries acc s)))
         \<and> distinct (map doc_id created)
         \<and> settings (snd (zip_loop E st tgs folder engine entries acc s)) = settings s"
  using assms
proof (induction entries arbitrary: acc s)
  case Nil
  then show ?case by simp
next
  case (Cons z entries)
  show ?case
  proof (cases "entry_mime E st z")
    case None
    then have nq: "\<not> qualifies E st z"
      using entry_mime_qualifies [of E st z] by simp
    from Cons.IH [OF Cons.prems, of acc] None nq show ?thesis
      by simp
  next
    case (Some m)
    then have q: "qualifies E st z"
      using entry_mime_qualifies [of E st z] by simp
    define r where "r = ingest_entry E tgs folder engine z m s"
    note eff = ingest_entry_effect [OF Cons.prems, of E tgs folder engine z m, folded r_def]
    have step: "zip_loop E st tgs folder engine (z # entries) acc s
                  = zip_loop E st tgs folder engine entries (acc @ [fst r]) (snd r)"
      using Some by (simp add: r_def case_prod_beta)
    from Cons.IH [OF eff(2), of "acc @ [fst r]"]
    obtain created where c:
      "fst (zip_loop E st tgs folder engine entries (acc @ [fst r]) (snd r)) = (acc @ [fst r]) @ created"
      "index_names (snd (zip_loop E st tgs folder engine entries (acc @ [fst r]) (snd r)))
         = index_names (snd r) @ map (\<lambda>d. (doc_id d, filename d)) created"
      "map filename created = map (\<lambda>z. basename (zfilename z)) (filter (qualifies E st) entries)"
      "fresh_ids (snd (zip_loop E st tgs folder engine entries (acc @ [fst r]) (snd r)))"
      "next_uuid (snd r) \<le> next_uuid (snd (zip_loop E st tgs folder engine entries (acc @ [fst r]) (snd r)))"
      "\<forall>d \<in> set created. next_uuid (snd r) \<le> doc_id d
          \<and> doc_id d < next_uuid (snd (zip_loop E st tgs folder engine entries (acc @ [fst r]) (snd r)))"
      "distinct (map doc_id created)"
      "settings (snd (zip_loop E st tgs folder engine entries (acc @ [fst r]) (snd r))) = settings (snd r)"
      by blast
    have d: "doc_id (fst r) \<notin> doc_id ` set created"
      using c(6) eff(4) by force
    show ?thesis
      unfolding step
      apply (rule exI [of _ "fst r # created"])
      using c d eff q by (auto simp: less_le_trans)
  qed
qed



text \<open>Identifiers stay fresh in every reachable state.\<close>

lemma fresh_ids_process_document_ocr:
  "fresh_ids s \<Longrightarrow> fresh_ids (process_document_ocr E i eng s)"
  by (simp add: fresh_ids_names)

lemma fresh_ids_db_create:
  assumes "\<forall>k \<in> fst ` set (documents s). k < n" and "doc_id d < n" and "next_uuid s = n"
  shows "fresh_ids (db_create_document d s)"
  using assms by (auto simp: fresh_ids_def db_create_document_def dom_update)

lemma fresh_ids_create_single:
  assumes "fresh_ids s"
  shows "fresh_ids (snd (create_single E file mt tgs folder engine s))"
proof -
  define s1 where "s1 = snd (save_file E (content file) (up_filename file) s)"
  define p where "p = fst (save_file E (content file) (up_filename file) s)"
  define r2 where "r2 = (if startswith mt ''image/'' then create_thumbnail E p s1 else (None, s1))"
  define nd where "nd = new_document E (up_filename file) p (fst r2) mt
                          (int (length (content file))) folder (snd r2)"
  define rt where "rt = resolve_tags tgs (snd nd)"
  define built where "built = (fst nd)\<lparr>tags := fst rt\<rparr>"
  have r: "snd (create_single E file mt tgs folder engine s)
             = process_document_ocr E (doc_id built) engine (db_create_document built (snd rt))"
    by (simp add: create_single_def Let_def case_prod_beta s1_def p_def r2_def nd_def rt_def built_def)
  have docs: "documents (snd rt) = documents s"
    by (simp add: rt_def nd_def r2_def s1_def)
  have a: "next_uuid s \<le> next_uuid (snd r2)"
    using create_thumbnail_next_uuid [of s1 E p] by (simp add: r2_def s1_def)
  have b: "doc_id built = next_uuid (snd r2)"
    by (simp add: built_def nd_def)
  have c: "Suc (next_uuid (snd r2)) \<le> next_uuid (snd rt)"
    using resolve_tags_next_uuid [of "snd nd" tgs] by (simp add: rt_def nd_def)
  have "fresh_ids (db_create_document built (snd rt))"
  proof (rule fresh_ids_db_create)
    show "\<forall>k \<in> fst ` set (documents (snd rt)). k < next_uuid (snd rt)"
      using assms a c unfolding docs fresh_ids_def by fastforce
    show "doc_id built < next_uuid (snd rt)" using b c by simp
    show "next_uuid (snd rt) = next_uuid (snd rt)" by simp
  qed
  then show ?thesis unfolding r by (rule fresh_ids_process_document_ocr)
qed

lemma fresh_ids_create_document:
  assumes "fresh_ids s"
  shows "fresh_ids (snd (create_document E file tgs folder ocr_eng s))"
proof -
  have z: "fresh_ids (snd (zip_loop E st tgs folder engine entries [] s))" for st engine entries
    using zip_loop_effect [OF assms, of E st tgs folder engine entries "[]"] by blast
  show ?thesis
    using assms z fresh_ids_create_single [OF assms]
    by (auto simp: create_document_def Let_def case_prod_beta split: option.splits list.splits prod.splits)
qed

lemma reachable_fresh_ids: "reachable E s \<Longrightarrow> fresh_ids s"
proof (induction rule: reachable.induct)
  case (start fs)
  then show ?case by (simp add: fresh_ids_def init_state_def)
next
  case (ingest s upl tgs folder ocr_eng)
  then show ?case by (simp add: fresh_ids_create_document)
next
  case (ocr_run s document_id engine)
  then show ?case by (simp add: fresh_ids_process_document_ocr)
next
  case (reocr s document_id ocr_eng)
  then show ?case
    by (simp add: reocr_document_def fresh_ids_process_document_ocr split: option.splits)
next
  case (configure s st)
  then show ?case by (simp add: fresh_ids_def)
qed






subsection \<open>Folder listing\<close>

lemma set_parts_loop:
  "cur \<in> set acc \<Longrightarrow>
   set (parts_loop parts cur acc)
     = set acc \<union> (\<lambda>pre. cur @ concat (map (\<lambda>p. p @ ''/'') pre))
                   ` set (prefixes (filter (\<lambda>p. p \<noteq> []) parts))"
proof (induction parts arbitrary: cur acc)
  case Nil
  then show ?case by auto
next
  case (Cons p rest)
  show ?case
  proof (cases "p = []")
    case True
    with Cons show ?thesis by simp
  next
    case False
    let ?cur = "cur @ p @ ''/''"
    have "?cur \<in> set (List.insert ?cur acc)" by simp
    from Cons.IH [OF this] False Cons.prems show ?thesis
      by (auto simp: Let_def image_image)
  qed
qed

lemma distinct_parts_loop: "distinct acc \<Longrightarrow> distinct (parts_loop parts cur acc)"
  by (induction parts arbitrary: cur acc) (auto simp: Let_def)

text \<open>Slashes at either end of a path add no component.\<close>

lemma split_append_sep: "split c (s @ [c]) = split c s @ [[]]"
proof (induction s)
  case Nil
  then show ?case by simp
next
  case (Cons a s)
  obtain w ws where "split c s = w # ws"
    using split_nonempty [of c s] by (cases "split c s") auto
  with Cons show ?case by simp
qed

lemma components_append_sep:
  "filter (\<lambda>p. p \<noteq> []) (split c (s @ [c])) = filter (\<lambda>p. p \<noteq> []) (split c s)"
  by (simp add: split_append_sep)

lemma components_drop_leading:
  "filter (\<lambda>p. p \<noteq> []) (split c (dropWhile (\<lambda>x. x = c) s)) = filter (\<lambda>p. p \<noteq> []) (split c s)"
  by (induction s) auto

lemma components_drop_trailing:
  "filter (\<lambda>p. p \<noteq> []) (split c (rev (dropWhile (\<lambda>x. x = c) r)))
     = filter (\<lambda>p. p \<noteq> []) (split c (rev r))"
  by (induction r) (auto simp: components_append_sep)

lemma components_strip:
  "filter (\<lambda>p. p \<noteq> []) (split CHR ''/'' (strip_chars ''/'' fp)) = path_components fp"
proof -
  have "strip_chars ''/'' fp
          = rev (dropWhile (\<lambda>x. x = CHR ''/'') (rev (dropWhile (\<lambda>x. x = CHR ''/'') fp)))"
    by (simp add: strip_chars_def strip_by_def)
  then show ?thesis
    by (simp add: components_drop_trailing components_drop_leading path_components_def)
qed

lemma set_folders_loop:
  "set (folders_loop docs acc)
     = set acc \<union> (\<Union>d \<in> set docs. set (folder_prefixes (folder_path d)))"
proof (induction docs arbitrary: acc)
  case Nil
  then show ?case by simp
next
  case (Cons d docs)
  have "set (parts_loop (split CHR ''/'' (strip_chars ''/'' (folder_path d))) ''/''
               (List.insert ''/'' acc))
          = set acc \<union> set (folder_prefixes (folder_path d))"
    by (subst set_parts_loop)
       (auto simp: components_strip folder_prefixes_def folder_of_def)
  with Cons.IH show ?case
    by (auto simp: Let_def)
qed

lemma distinct_folders_loop: "distinct acc \<Longrightarrow> distinct (folders_loop docs acc)"
  by (induction docs arbitrary: acc) (auto simp: Let_def distinct_parts_loop)

lemma root_in_folder_prefixes: "''/'' \<in> set (folder_prefixes fp)"
  by (auto simp: folder_prefixes_def folder_of_def intro!: image_eqI [where x = "[]"])


lemma list_documents_all:
  "length (documents s) \<le> 1000000 \<Longrightarrow> list_documents s 0 1000000 None = map snd (documents s)"
  using py_slice_all [of "map snd (documents s)" 1000000]
  by (simp add: list_documents_def Let_def)

lemma f_path_folder_entry: "map f_path (map (folder_entry docs) fs) = fs"
  by (induction fs) (simp_all add: folder_entry_def)

lemma list_folders_small:
  assumes "length (documents s) \<le> 1000000"
  shows "list_folders s = map (folder_entry (map snd (documents s)))
                            (sort (folders_loop (map snd (documents s)) []))"
  using list_documents_all [OF assms] by (simp add: list_folders_def Let_def)

text \<open>
  Claim C7, as the code has it.  \<open>list_folders\<close> reads the first 1000000 documents of
  the index.  For an index of at most that many documents: the paths listed are exactly
  the folders of the prefixes of the folder paths of the documents, each once and in
  sorted order; the count of a listed folder is the number of documents whose folder
  path is that folder; and the root \<open>/\<close> is listed exactly when the index holds a
  document.
\<close>

theorem folder_listing:
  assumes "length (documents s) \<le> 1000000"
  shows "set (map f_path (list_folders s))
           = (\<Union>d \<in> snd ` set (documents s). set (folder_prefixes (folder_path d)))
       \<and> distinct (map f_path (list_folders s))
       \<and> sorted (map f_path (list_folders s))
       \<and> (\<forall>f \<in> set (list_folders s).
            document_count f
              = length (filter (\<lambda>d. folder_path d = f_path f) (map snd (documents s))))
       \<and> (''/'' \<in> set (map f_path (list_folders s)) \<longleftrightarrow> documents s \<noteq> [])"
proof -
  let ?docs = "map snd (documents s)"
  have lf: "list_folders s = map (folder_entry ?docs) (sort (folders_loop ?docs []))"
    using assms by (rule list_folders_small)
  have paths: "map f_path (list_folders s) = sort (folders_loop ?docs [])"
    unfolding lf by (rule f_path_folder_entry)
  have a: "set (map f_path (list_folders s))
             = (\<Union>d \<in> snd ` set (documents s). set (folder_prefixes (folder_path d)))"
    unfolding paths by (simp add: set_folders_loop)
  have b: "distinct (map f_path (list_folders s))"
    unfolding paths by (simp add: distinct_folders_loop)
  have c: "sorted (map f_path (list_folders s))"
    unfolding paths by simp
  have d: "\<forall>f \<in> set (list_folders s).
            document_count f
              = length (filter (\<lambda>d. folder_path d = f_path f) (map snd (documents s)))"
    unfolding lf by (auto simp: folder_entry_def)
  have e: "''/'' \<in> set (map f_path (list_folders s)) \<longleftrightarrow> documents s \<noteq> []"
  proof
    assume "''/'' \<in> set (map f_path (list_folders s))"
    then show "documents s \<noteq> []" unfolding a by auto
  next
    assume "documents s \<noteq> []"
    then obtain p where "p \<in> set (documents s)" by (cases "documents s") auto
    then show "''/'' \<in> set (map f_path (list_folders s))"
      unfolding a using root_in_folder_prefixes by blast
  qed
  from a b c d e show ?thesis by blast
qed

theorem folder_listing_witness:
  "length (documents ex_foldered) \<le> 1000000
   \<and> list_folders ex_foldered
       = [\<lparr> f_path = ''/'', f_name = ''Root'', document_count = 0 \<rparr>,
          \<lparr> f_path = ''/2024/'', f_name = ''2024'', document_count = 0 \<rparr>,
          \<lparr> f_path = ''/2024/q/'', f_name = ''q'', document_count = 2 \<rparr>]
   \<and> set (map f_path (list_folders ex_foldered))
       = (\<Union>d \<in> snd ` set (documents ex_foldered). set (folder_prefixes (folder_path d)))
   \<and> ''/'' \<in> set (map f_path (list_folders ex_foldered))"
proof -
  have n: "length (documents ex_foldered) = 2"
    by code_simp
  then have h: "length (documents ex_foldered) \<le> 1000000"
    by simp
  have "map (folder_entry (map snd (documents ex_foldered)))
          (sort (folders_loop (map snd (documents ex_foldered)) []))
       = [\<lparr> f_path = ''/'', f_name = ''Root'', document_count = 0 \<rparr>,
          \<lparr> f_path = ''/2024/'', f_name = ''2024'', document_count = 0 \<rparr>,
          \<lparr> f_path = ''/2024/q/'', f_name = ''q'', document_count = 2 \<rparr>]"
    by code_simp
  then have v: "list_folders ex_foldered
       = [\<lparr> f_path = ''/'', f_name = ''Root'', document_count = 0 \<rparr>,
          \<lparr> f_path = ''/2024/'', f_name = ''2024'', document_count = 0 \<rparr>,
          \<lparr> f_path = ''/2024/q/'', f_name = ''q'', document_count = 2 \<rparr>]"
    using list_folders_small [OF h] by simp
  from n have ne: "documents ex_foldered \<noteq> []" by auto
  from folder_listing [OF h] ne
  have "set (map f_path (list_folders ex_foldered))
       = (\<Union>d \<in> snd ` set (documents ex_foldered). set (folder_prefixes (folder_path d)))"
    and "''/'' \<in> set (map f_path (list_folders ex_foldered))"
    by blast+
  with h v show ?thesis by simp
qed

text \<open>With no document in the index the listing is empty: the root is not listed.\<close>

theorem empty_index_lists_no_root:
  "documents init_state = [] \<and> list_folders init_state = []
   \<and> ''/'' \<notin> set (map f_path (list_folders init_state))"
proof -
  have d: "documents init_state = []"
    by (simp add: init_state_def)
  then have "list_folders init_state = []"
    using list_folders_small [of init_state] by simp
  with d show ?thesis by simp
qed

end
